theory Spec2Isabelle
  imports Main "HOL-Library.Sublist"
begin

section \<open>The outfit detail screen (src/screens/OutfitDetailScreen.tsx)\<close>

subsection \<open>Values, the outfit object and the calls the screen makes\<close>

text \<open>
  The values an outfit's properties hold at run time. \<open>handleFieldChange\<close> takes
  \<^verbatim>\<open>value: any\<close>, so a property can hold any of them. Numbers and functions are left
  out: no property of an outfit read by this screen holds one.
\<close>

datatype jsval =
    JUndefined
  | JNull
  | JBool bool
  | JString string
  | JArray "jsval list"
  | JObject "(string \<times> jsval) list"

text \<open>
  An outfit is a plain object: a finite map from property names to values. The
  declaration of the type \<^verbatim>\<open>Outfit\<close> is in another module; the screen reads the
  properties \<^verbatim>\<open>imageUri\<close>, \<^verbatim>\<open>tags\<close>, \<^verbatim>\<open>clothingItems\<close>, \<^verbatim>\<open>season\<close> and
  \<^verbatim>\<open>occasion\<close>.
\<close>

type_synonym Outfit = "string \<rightharpoonup> jsval"

text \<open>Reading a property: a missing property reads as \<^verbatim>\<open>undefined\<close>.\<close>

definition getProp :: "Outfit \<Rightarrow> string \<Rightarrow> jsval" where
  "getProp obj k = (case obj k of None \<Rightarrow> JUndefined | Some v \<Rightarrow> v)"

datatype error = TypeError

text \<open>
  The calls the screen makes on its collaborators, in the order it makes them:
  \<^verbatim>\<open>updateOutfit\<close> and \<^verbatim>\<open>deleteOutfit\<close> of the outfit context, \<^verbatim>\<open>navigation.goBack\<close>,
  \<^verbatim>\<open>navigation.navigate\<close>, and \<^verbatim>\<open>Alert.alert\<close> with its title, its message and the
  text and style of each button.
\<close>

datatype call =
    UpdateOutfit Outfit
  | DeleteOutfit string
  | GoBack
  | Navigate string jsval
  | AlertCall string string "(string \<times> string option) list"

text \<open>
  What one render of the component sees: \<open>routeId\<close> is \<^verbatim>\<open>route.params.id\<close>,
  \<open>localOutfit\<close> and \<open>isDirty\<close> are the values of the two \<^verbatim>\<open>useState\<close> cells in
  that render. The closures a render makes keep these values.
\<close>

record rendered =
  routeId :: string
  localOutfit :: "Outfit option"
  isDirty :: bool

definition capture :: "'a rendered_scheme \<Rightarrow> rendered" where
  "capture r = \<lparr>routeId = routeId r, localOutfit = localOutfit r, isDirty = isDirty r\<rparr>"

text \<open>
  A call of a state setter does not change the cell: it queues an update, and the
  queue is applied when the component renders next. \<^verbatim>\<open>setLocalOutfit\<close> is given
  either a value or a function of the previous value; a value \<open>v\<close> is the function
  \<open>\<lambda>_. v\<close>.
\<close>

datatype update =
    LocalOutfitUpdate "Outfit option \<Rightarrow> Outfit option"
  | IsDirtyUpdate bool

text \<open>
  The \<^verbatim>\<open>onPress\<close> closures of the alert buttons, each with the render whose values it
  keeps: \<^verbatim>\<open>() => navigation.goBack()\<close> (line 98),
  \<^verbatim>\<open>() => { handleSave(); navigation.goBack(); }\<close> (lines 102-105) and
  \<^verbatim>\<open>() => { deleteOutfit(id); navigation.goBack(); }\<close> (lines 59-62). What each does
  when pressed is \<open>runCallback\<close> below.
\<close>

datatype callback =
    DiscardOnPress
  | SaveOnPress rendered
  | DeleteOnPress rendered

text \<open>A button of an alert: its text, its style and its \<^verbatim>\<open>onPress\<close> callback.\<close>

record button =
  btn_text :: string
  btn_style :: "string option"
  onPress :: "callback option"

text \<open>
  The component between two user actions: the cells as the latest render saw them,
  the queue of state updates not yet applied (oldest first), the log of calls made so
  far (oldest first), and the buttons of the alert that is on screen, if one is.
\<close>

record screen = rendered +
  pending :: "update list"
  calls :: "call list"
  showing :: "button list option"

subsection \<open>The collaborators\<close>

definition updateOutfit :: "Outfit \<Rightarrow> screen \<Rightarrow> screen" where
  "updateOutfit obj s = s\<lparr>calls := calls s @ [UpdateOutfit obj]\<rparr>"

definition deleteOutfit :: "string \<Rightarrow> screen \<Rightarrow> screen" where
  "deleteOutfit i s = s\<lparr>calls := calls s @ [DeleteOutfit i]\<rparr>"

definition goBack :: "screen \<Rightarrow> screen" where
  "goBack s = s\<lparr>calls := calls s @ [GoBack]\<rparr>"

definition navigate :: "string \<Rightarrow> jsval \<Rightarrow> screen \<Rightarrow> screen" where
  "navigate name params s = s\<lparr>calls := calls s @ [Navigate name params]\<rparr>"

text \<open>
  \<^verbatim>\<open>Alert.alert(title, message, buttons)\<close> puts the alert on screen with the buttons it
  was given, callbacks included; given no button it shows a single ``OK'' that does
  nothing.
\<close>

definition okButton :: button where
  "okButton = \<lparr>btn_text = ''OK'', btn_style = None, onPress = None\<rparr>"

definition alert :: "string \<Rightarrow> string \<Rightarrow> button list \<Rightarrow> screen \<Rightarrow> screen" where
  "alert title message buttons s =
     s\<lparr>calls := calls s @ [AlertCall title message (map (\<lambda>b. (btn_text b, btn_style b)) buttons)],
       showing := Some (case buttons of [] \<Rightarrow> [okButton] | _ \<Rightarrow> buttons)\<rparr>"

subsection \<open>State, its setters and the resynchronisation effect (lines 32-43)\<close>

definition setLocalOutfit :: "(Outfit option \<Rightarrow> Outfit option) \<Rightarrow> screen \<Rightarrow> screen" where
  "setLocalOutfit f s = s\<lparr>pending := pending s @ [LocalOutfitUpdate f]\<rparr>"

definition setIsDirty :: "bool \<Rightarrow> screen \<Rightarrow> screen" where
  "setIsDirty b s = s\<lparr>pending := pending s @ [IsDirtyUpdate b]\<rparr>"

fun applyUpdate :: "update \<Rightarrow> screen \<Rightarrow> screen" where
  "applyUpdate (LocalOutfitUpdate f) s = s\<lparr>localOutfit := f (localOutfit s)\<rparr>"
| "applyUpdate (IsDirtyUpdate b) s = s\<lparr>isDirty := b\<rparr>"

text \<open>The next render: the queued updates are applied in the order they were queued.\<close>

definition commit :: "screen \<Rightarrow> screen" where
  "commit s = fold applyUpdate (pending s) (s\<lparr>pending := []\<rparr>)"

text \<open>
  \<open>contextOutfit\<close> is what \<^verbatim>\<open>getOutfit(id)\<close> returns in the current render.
  \<^verbatim>\<open>useState(contextOutfit)\<close> and \<^verbatim>\<open>useState(false)\<close> give the first state; the
  effect runs after the first render and after every render in which
  \<open>contextOutfit\<close> is a different reference. \<open>mountScreen\<close> is the component once
  mounted: first render, effect, next render.
\<close>

definition initialState :: "string \<Rightarrow> Outfit option \<Rightarrow> screen" where
  "initialState i contextOutfit =
     \<lparr>routeId = i, localOutfit = contextOutfit, isDirty = False,
      pending = [], calls = [], showing = None\<rparr>"

definition resyncEffect :: "Outfit option \<Rightarrow> screen \<Rightarrow> screen" where
  "resyncEffect contextOutfit s =
     (case contextOutfit of
        None \<Rightarrow> s
      | Some obj \<Rightarrow> setLocalOutfit (\<lambda>_. Some obj) s)"

definition mountScreen :: "string \<Rightarrow> Outfit option \<Rightarrow> screen" where
  "mountScreen i contextOutfit =
     commit (resyncEffect contextOutfit (initialState i contextOutfit))"

subsection \<open>The handlers (lines 53-111 and 129-140)\<close>

text \<open>
  A handler is a closure made by one render. Its first argument \<open>r\<close> is that render
  (the handler reads \<^verbatim>\<open>id\<close>, \<^verbatim>\<open>localOutfit\<close> and \<^verbatim>\<open>isDirty\<close> from there); its last
  argument is the component when the handler runs, to which it adds calls, queued
  updates and alerts.
\<close>

definition deleteButtons :: "'a rendered_scheme \<Rightarrow> button list" where
  "deleteButtons r =
     [\<lparr>btn_text = ''Cancel'', btn_style = Some ''cancel'', onPress = None\<rparr>,
      \<lparr>btn_text = ''Delete'', btn_style = Some ''destructive'',
       onPress = Some (DeleteOnPress (capture r))\<rparr>]"

definition handleDelete :: "'a rendered_scheme \<Rightarrow> screen \<Rightarrow> screen" where
  "handleDelete r s =
     alert ''Delete Outfit'' ''Are you sure you want to delete this outfit?'' (deleteButtons r) s"

definition handleSave :: "'a rendered_scheme \<Rightarrow> screen \<Rightarrow> screen" where
  "handleSave r s =
     (case localOutfit r of
        None \<Rightarrow> s
      | Some obj \<Rightarrow>
          alert ''Success'' ''Outfit updated successfully'' []
            (setIsDirty False (updateOutfit obj s)))"

definition handleFieldChange :: "string \<Rightarrow> jsval \<Rightarrow> screen \<Rightarrow> screen" where
  "handleFieldChange field val s =
     setIsDirty True
       (setLocalOutfit
          (\<lambda>prevOutfit. case prevOutfit of
             None \<Rightarrow> None
           | Some prev \<Rightarrow> Some (prev(field \<mapsto> val)))
          s)"

definition handleEditOutfit :: "'a rendered_scheme \<Rightarrow> screen \<Rightarrow> screen" where
  "handleEditOutfit r s = navigate ''OutfitCanvas'' (JObject [(''id'', JString (routeId r))]) s"

definition unsavedChangesButtons :: "'a rendered_scheme \<Rightarrow> button list" where
  "unsavedChangesButtons r =
     [\<lparr>btn_text = ''Discard'', btn_style = Some ''destructive'', onPress = Some DiscardOnPress\<rparr>,
      \<lparr>btn_text = ''Save'', btn_style = None, onPress = Some (SaveOnPress (capture r))\<rparr>]"

definition onBack :: "'a rendered_scheme \<Rightarrow> screen \<Rightarrow> screen" where
  "onBack r s =
     (if isDirty r
      then alert ''Unsaved Changes'' ''Do you want to save your changes?''
             (unsavedChangesButtons r) s
      else goBack s)"

text \<open>The bodies of the three \<^verbatim>\<open>onPress\<close> closures.\<close>

fun runCallback :: "callback \<Rightarrow> screen \<Rightarrow> screen" where
  "runCallback DiscardOnPress s = goBack s"
| "runCallback (SaveOnPress r) s = goBack (handleSave r s)"
| "runCallback (DeleteOnPress r) s = goBack (deleteOutfit (routeId r) s)"

text \<open>
  The user presses a button of the alert that is on screen: the alert goes away and
  the button's \<^verbatim>\<open>onPress\<close> runs, if it has one. \<open>pressButton\<close> picks the button by its
  text and is \<open>None\<close> when no alert is on screen or the alert has no such button.
\<close>

definition dismiss :: "screen \<Rightarrow> screen" where
  "dismiss s = s\<lparr>showing := None\<rparr>"

definition pressed :: "button \<Rightarrow> screen \<Rightarrow> screen" where
  "pressed b s = (case onPress b of None \<Rightarrow> s | Some cb \<Rightarrow> runCallback cb s)"

definition pressButton :: "string \<Rightarrow> screen \<Rightarrow> screen option" where
  "pressButton t s =
     (case showing s of
        None \<Rightarrow> None
      | Some buttons \<Rightarrow>
          (case find (\<lambda>b. btn_text b = t) buttons of
             None \<Rightarrow> None
           | Some b \<Rightarrow> Some (pressed b (dismiss s))))"

text \<open>
  \<^verbatim>\<open>[...localOutfit.tags, tag]\<close>: spreading an array gives its elements, spreading a
  string gives its characters, spreading anything else here raises.
\<close>

fun spreadElements :: "jsval \<Rightarrow> error + jsval list" where
  "spreadElements (JArray xs) = Inr xs"
| "spreadElements (JString cs) = Inr (map (\<lambda>c. JString [c]) cs)"
| "spreadElements _ = Inl TypeError"

definition onAddTag :: "'a rendered_scheme \<Rightarrow> string \<Rightarrow> screen \<Rightarrow> error + screen" where
  "onAddTag r tag s =
     (case localOutfit r of
        None \<Rightarrow> Inl TypeError
      | Some obj \<Rightarrow>
          (case spreadElements (getProp obj ''tags'') of
             Inl e \<Rightarrow> Inl e
           | Inr ts \<Rightarrow> Inr (handleFieldChange ''tags'' (JArray (ts @ [JString tag])) s)))"

text \<open>
  \<^verbatim>\<open>localOutfit.tags.filter((t) => t !== tag)\<close>: only an array has \<^verbatim>\<open>filter\<close>. The
  tag is a string, so \<^verbatim>\<open>t !== tag\<close> holds for every element that is not that string.
\<close>

definition onRemoveTag :: "'a rendered_scheme \<Rightarrow> string \<Rightarrow> screen \<Rightarrow> error + screen" where
  "onRemoveTag r tag s =
     (case localOutfit r of
        None \<Rightarrow> Inl TypeError
      | Some obj \<Rightarrow>
          (case getProp obj ''tags'' of
             JArray ts \<Rightarrow>
               Inr (handleFieldChange ''tags'' (JArray (filter (\<lambda>t. t \<noteq> JString tag) ts)) s)
           | _ \<Rightarrow> Inl TypeError))"

subsection \<open>Rendering (lines 24-26, 45-51 and 89-192)\<close>

text \<open>
  What a render returns: the loading text, the not-found placeholder, or the form. The
  form shows the snapshot, one thumbnail for each clothing item the clothing context
  knows (by the item's \<^verbatim>\<open>id\<close>), and the save button when the dirty flag is set.
\<close>

datatype view =
    Loading
  | NotFound
  | Form Outfit "jsval list" bool

text \<open>\<^verbatim>\<open>item.id\<close>: reading a property of \<^verbatim>\<open>undefined\<close> or \<^verbatim>\<open>null\<close> raises.\<close>

fun itemId :: "jsval \<Rightarrow> error + jsval" where
  "itemId JUndefined = Inl TypeError"
| "itemId JNull = Inl TypeError"
| "itemId (JObject ps) = Inr (case map_of ps ''id'' of None \<Rightarrow> JUndefined | Some v \<Rightarrow> v)"
| "itemId _ = Inr JUndefined"

text \<open>
  \<^verbatim>\<open>localOutfit.clothingItems.map(...)\<close> over the elements: an item the clothing context
  does not know renders nothing. \<open>known\<close> says whether \<^verbatim>\<open>getClothingItem\<close> returns an
  item for an id.
\<close>

fun thumbnails :: "(jsval \<Rightarrow> bool) \<Rightarrow> jsval list \<Rightarrow> error + jsval list" where
  "thumbnails known [] = Inr []"
| "thumbnails known (item # items) =
     (case itemId item of
        Inl e \<Rightarrow> Inl e
      | Inr i \<Rightarrow>
          (case thumbnails known items of
             Inl e \<Rightarrow> Inl e
           | Inr rest \<Rightarrow> Inr (if known i then i # rest else rest)))"

text \<open>\<open>ready\<close> says that both contexts are there.\<close>

definition render :: "bool \<Rightarrow> (jsval \<Rightarrow> bool) \<Rightarrow> screen \<Rightarrow> error + view" where
  "render ready known s =
     (if \<not> ready then Inr Loading
      else case localOutfit s of
        None \<Rightarrow> Inr NotFound
      | Some obj \<Rightarrow>
          (case getProp obj ''clothingItems'' of
             JArray items \<Rightarrow>
               (case thumbnails known items of
                  Inl e \<Rightarrow> Inl e
                | Inr ths \<Rightarrow> Inr (Form obj ths (isDirty s)))
           | _ \<Rightarrow> Inl TypeError))"

text \<open>
  What the user can do on the rendered screen, and the handler the render attached to
  it. Nothing is attached on the loading text and on the placeholder; the save button
  is there only when the form was rendered with the dirty flag set.
\<close>

datatype event =
    PressBack
  | PressDelete
  | PressImage
  | AddTag string
  | RemoveTag string
  | SeasonChange jsval
  | OccasionChange jsval
  | PressItem jsval
  | PressSave

definition fire :: "bool \<Rightarrow> (jsval \<Rightarrow> bool) \<Rightarrow> event \<Rightarrow> screen \<Rightarrow> error + screen" where
  "fire ready known ev s =
     (case render ready known s of
        Inl e \<Rightarrow> Inl e
      | Inr Loading \<Rightarrow> Inr s
      | Inr NotFound \<Rightarrow> Inr s
      | Inr (Form obj ths dirty) \<Rightarrow>
          (case ev of
             PressBack \<Rightarrow> Inr (onBack s s)
           | PressDelete \<Rightarrow> Inr (handleDelete s s)
           | PressImage \<Rightarrow> Inr (handleEditOutfit s s)
           | AddTag tag \<Rightarrow> onAddTag s tag s
           | RemoveTag tag \<Rightarrow> onRemoveTag s tag s
           | SeasonChange v \<Rightarrow> Inr (handleFieldChange ''season'' v s)
           | OccasionChange v \<Rightarrow> Inr (handleFieldChange ''occasion'' v s)
           | PressItem i \<Rightarrow>
               (if i \<in> set ths
                then Inr (navigate ''Closet''
                       (JObject [(''screen'', JString ''ClothingDetail''),
                                 (''params'', JObject [(''id'', i)])]) s)
                else Inr s)
           | PressSave \<Rightarrow> (if dirty then Inr (handleSave s s) else Inr s)))"

subsection \<open>Counting calls in the log\<close>


fun isDelete :: "call \<Rightarrow> bool" where
  "isDelete (DeleteOutfit i) = True"
| "isDelete _ = False"

fun isGoBack :: "call \<Rightarrow> bool" where
  "isGoBack GoBack = True"
| "isGoBack _ = False"

definition countCalls :: "(call \<Rightarrow> bool) \<Rightarrow> screen \<Rightarrow> nat" where
  "countCalls P s = length (filter P (calls s))"

subsection \<open>The histories of the screen\<close>

text \<open>
  The states the mounted screen goes through: it is mounted on what the store
  returns; the effect runs with a new store value; an event of the rendered screen
  runs its handler; the user presses a button of the alert on screen; the component
  renders again.
\<close>

inductive reachable :: "screen \<Rightarrow> bool" where
  mounted: "reachable (mountScreen i contextOutfit)"
| resynced: "reachable s \<Longrightarrow> reachable (resyncEffect contextOutfit s)"
| fired: "reachable s \<Longrightarrow> fire True known ev s = Inr s' \<Longrightarrow> reachable s'"
| button: "reachable s \<Longrightarrow> pressButton t s = Some s' \<Longrightarrow> reachable s'"
| rendered_again: "reachable s \<Longrightarrow> reachable (commit s)"

subsection \<open>The invariant of the histories\<close>

text \<open>
  A queued update keeps a snapshot when it never turns a defined snapshot into an
  undefined one. The invariant: every queued update keeps a snapshot, and a component
  with no snapshot is clean, shows no alert and has only snapshot updates queued.
\<close>

fun keepsSnapshot :: "update \<Rightarrow> bool" where
  "keepsSnapshot (LocalOutfitUpdate f) = (\<forall>x. f (Some x) \<noteq> None)"
| "keepsSnapshot (IsDirtyUpdate b) = True"

fun isLocalOutfitUpdate :: "update \<Rightarrow> bool" where
  "isLocalOutfitUpdate (LocalOutfitUpdate f) = True"
| "isLocalOutfitUpdate (IsDirtyUpdate b) = False"

definition snapshotInv :: "screen \<Rightarrow> bool" where
  "snapshotInv s \<longleftrightarrow>
     (\<forall>u \<in> set (pending s). keepsSnapshot u)
     \<and> (localOutfit s = None \<longrightarrow>
          \<not> isDirty s \<and> showing s = None \<and> (\<forall>u \<in> set (pending s). isLocalOutfitUpdate u))"

subsection \<open>Concrete inputs\<close>

definition outfit0 :: Outfit where
  "outfit0 =
     [''id'' \<mapsto> JString ''o1'',
      ''imageUri'' \<mapsto> JString ''file:///o1.png'',
      ''tags'' \<mapsto> JArray [JString ''casual'', JString ''summer'', JString ''casual''],
      ''clothingItems'' \<mapsto> JArray [JObject [(''id'', JString ''c1'')]],
      ''season'' \<mapsto> JArray [JString ''summer''],
      ''occasion'' \<mapsto> JArray []]"

definition clean0 :: screen where
  "clean0 = mountScreen ''o1'' (Some outfit0)"

definition dirty0 :: screen where
  "dirty0 = commit (handleFieldChange ''season'' (JArray [JString ''summer'']) clean0)"

section \<open>The queue of state updates\<close>

lemmas log_defs = updateOutfit_def deleteOutfit_def goBack_def navigate_def alert_def

lemma fold_applyUpdate_frame:
  "calls (fold applyUpdate us s) = calls s"
  "routeId (fold applyUpdate us s) = routeId s"
  "showing (fold applyUpdate us s) = showing s"
  "pending (fold applyUpdate us s) = pending s"
proof (induction us arbitrary: s)
  case Nil
  { case 1 show ?case by simp next
    case 2 show ?case by simp next
    case 3 show ?case by simp next
    case 4 show ?case by simp }
next
  case (Cons u us)
  { case 1 show ?case using Cons.IH(1) by (cases u) simp_all next
    case 2 show ?case using Cons.IH(2) by (cases u) simp_all next
    case 3 show ?case using Cons.IH(3) by (cases u) simp_all next
    case 4 show ?case using Cons.IH(4) by (cases u) simp_all }
qed

lemma commit_frame:
  "calls (commit s) = calls s"
  "routeId (commit s) = routeId s"
  "showing (commit s) = showing s"
  "pending (commit s) = []"
  by (simp_all add: commit_def fold_applyUpdate_frame)

lemma commit_idle: "pending s = [] \<Longrightarrow> commit s = s"
  by (simp add: commit_def)

lemma commit_snoc: "commit (s\<lparr>pending := pending s @ [u]\<rparr>) = applyUpdate u (commit s)"
  by (simp add: commit_def)

lemma commit_setLocalOutfit: "commit (setLocalOutfit f s) = applyUpdate (LocalOutfitUpdate f) (commit s)"
  by (simp add: setLocalOutfit_def commit_snoc)

lemma commit_setIsDirty: "commit (setIsDirty b s) = applyUpdate (IsDirtyUpdate b) (commit s)"
  by (simp add: setIsDirty_def commit_snoc)

lemma fold_applyUpdate_calls_upd:
  "fold applyUpdate us (s\<lparr>calls := c\<rparr>) = (fold applyUpdate us s)\<lparr>calls := c\<rparr>"
proof (induction us arbitrary: s)
  case Nil show ?case by simp
next
  case (Cons u us)
  have "applyUpdate u (s\<lparr>calls := c\<rparr>) = (applyUpdate u s)\<lparr>calls := c\<rparr>"
    by (cases u) simp_all
  then show ?case using Cons.IH by simp
qed

lemma fold_applyUpdate_showing_upd:
  "fold applyUpdate us (s\<lparr>showing := c\<rparr>) = (fold applyUpdate us s)\<lparr>showing := c\<rparr>"
proof (induction us arbitrary: s)
  case Nil show ?case by simp
next
  case (Cons u us)
  have "applyUpdate u (s\<lparr>showing := c\<rparr>) = (applyUpdate u s)\<lparr>showing := c\<rparr>"
    by (cases u) simp_all
  then show ?case using Cons.IH by simp
qed

lemma commit_calls_upd: "commit (s\<lparr>calls := c\<rparr>) = (commit s)\<lparr>calls := c\<rparr>"
proof -
  have e: "s\<lparr>calls := c, pending := []\<rparr> = s\<lparr>pending := [], calls := c\<rparr>"
    by (cases s) simp
  have "commit (s\<lparr>calls := c\<rparr>) = fold applyUpdate (pending s) (s\<lparr>calls := c, pending := []\<rparr>)"
    unfolding commit_def by simp
  also have "\<dots> = fold applyUpdate (pending s) (s\<lparr>pending := [], calls := c\<rparr>)"
    by (simp only: e)
  also have "\<dots> = (fold applyUpdate (pending s) (s\<lparr>pending := []\<rparr>))\<lparr>calls := c\<rparr>"
    by (rule fold_applyUpdate_calls_upd)
  finally show ?thesis
    by (simp only: commit_def)
qed

lemma commit_showing_upd: "commit (s\<lparr>showing := c\<rparr>) = (commit s)\<lparr>showing := c\<rparr>"
proof -
  have e: "s\<lparr>showing := c, pending := []\<rparr> = s\<lparr>pending := [], showing := c\<rparr>"
    by (cases s) simp
  have "commit (s\<lparr>showing := c\<rparr>)
          = fold applyUpdate (pending s) (s\<lparr>showing := c, pending := []\<rparr>)"
    unfolding commit_def by simp
  also have "\<dots> = fold applyUpdate (pending s) (s\<lparr>pending := [], showing := c\<rparr>)"
    by (simp only: e)
  also have "\<dots> = (fold applyUpdate (pending s) (s\<lparr>pending := []\<rparr>))\<lparr>showing := c\<rparr>"
    by (rule fold_applyUpdate_showing_upd)
  finally show ?thesis
    by (simp only: commit_def)
qed

lemma commit_handleFieldChange:
  "commit (handleFieldChange field val s) =
     (commit s)\<lparr>localOutfit :=
                   (case localOutfit (commit s) of
                      None \<Rightarrow> None
                    | Some prev \<Rightarrow> Some (prev(field \<mapsto> val))),
                 isDirty := True\<rparr>"
  by (simp add: handleFieldChange_def commit_setIsDirty commit_setLocalOutfit)


section \<open>The alerts and their buttons\<close>

lemma handleSave_capture: "handleSave (capture r) s = handleSave r s"
  by (simp add: handleSave_def capture_def)

lemma routeId_capture: "routeId (capture r) = routeId r"
  by (simp add: capture_def)

lemma pressButton_onBack_dirty:
  assumes "isDirty r"
  shows "pressButton t (onBack r s) =
           (if t = ''Discard'' then Some (goBack (dismiss (onBack r s)))
            else if t = ''Save'' then Some (goBack (handleSave r (dismiss (onBack r s))))
            else None)"
  using assms
  by (auto simp add: pressButton_def onBack_def alert_def unsavedChangesButtons_def pressed_def
      dismiss_def handleSave_capture)

lemma pressButton_handleDelete:
  "pressButton t (handleDelete r s) =
     (if t = ''Cancel'' then Some (dismiss (handleDelete r s))
      else if t = ''Delete''
        then Some (goBack (deleteOutfit (routeId r) (dismiss (handleDelete r s))))
      else None)"
  by (auto simp add: pressButton_def handleDelete_def alert_def deleteButtons_def pressed_def
      dismiss_def routeId_capture)

section \<open>Facts about the concrete inputs\<close>

lemma mountScreen_eq:
  "mountScreen i contextOutfit =
     \<lparr>routeId = i, localOutfit = contextOutfit, isDirty = False,
      pending = [], calls = [], showing = None\<rparr>"
  by (cases contextOutfit)
     (simp_all add: mountScreen_def resyncEffect_def initialState_def setLocalOutfit_def commit_def)

lemma localOutfit_clean0: "localOutfit clean0 = Some outfit0"
  by (simp add: clean0_def mountScreen_eq)

lemma calls_clean0: "calls clean0 = []"
  by (simp add: clean0_def mountScreen_eq)

lemma pending_clean0: "pending clean0 = []"
  by (simp add: clean0_def mountScreen_eq)

lemma isDirty_clean0: "\<not> isDirty clean0"
  by (simp add: clean0_def mountScreen_eq)

lemma commit_clean0: "commit clean0 = clean0"
  by (simp add: commit_idle pending_clean0)

lemma outfit0_tags:
  "outfit0 ''tags'' = Some (JArray [JString ''casual'', JString ''summer'', JString ''casual''])"
  by (simp add: outfit0_def)

lemma outfit0_season: "outfit0 ''season'' = Some (JArray [JString ''summer''])"
  by (simp add: outfit0_def)

lemma outfit0_clothingItems:
  "outfit0 ''clothingItems'' = Some (JArray [JObject [(''id'', JString ''c1'')]])"
  by (simp add: outfit0_def)

text \<open>
  \<open>dirty0\<close> is \<open>clean0\<close> after the season toggle reported the selection it already
  had and the component rendered again: the snapshot has the same content, the dirty
  flag is set.
\<close>

lemma dirty0_eq:
  "dirty0 = \<lparr>routeId = ''o1'', localOutfit = Some outfit0, isDirty = True,
            pending = [], calls = [], showing = None\<rparr>"
  by (simp add: dirty0_def commit_handleFieldChange clean0_def mountScreen_eq commit_idle
      map_upd_triv outfit0_season)

lemma isDirty_dirty0: "isDirty dirty0"
  by (simp add: dirty0_eq)

lemma calls_dirty0: "calls dirty0 = []"
  by (simp add: dirty0_eq)


lemma localOutfit_mount_absent: "localOutfit (mountScreen i None) = None"
  by (simp add: mountScreen_eq)

lemma pending_mount_absent: "pending (mountScreen i None) = []"
  by (simp add: mountScreen_eq)

section \<open>No dirty flag without a snapshot\<close>

text \<open>
  Every step of a history keeps the invariant: once a snapshot is there no update
  removes it, and without one no handler and no alert button can run.
\<close>

lemma fold_keeps_snapshot:
  "\<forall>u \<in> set us. keepsSnapshot u \<Longrightarrow> localOutfit s \<noteq> None
   \<Longrightarrow> localOutfit (fold applyUpdate us s) \<noteq> None"
proof (induction us arbitrary: s)
  case Nil
  then show ?case by simp
next
  case (Cons u us)
  have "localOutfit (applyUpdate u s) \<noteq> None"
    using Cons.prems by (cases u) auto
  with Cons show ?case by simp
qed

lemma fold_keeps_isDirty:
  "\<forall>u \<in> set us. isLocalOutfitUpdate u \<Longrightarrow> isDirty (fold applyUpdate us s) = isDirty s"
proof (induction us arbitrary: s)
  case Nil
  then show ?case by simp
next
  case (Cons u us)
  have "isDirty (applyUpdate u s) = isDirty s"
    using Cons.prems by (cases u) auto
  with Cons show ?case by simp
qed

lemma snapshotInv_mountScreen: "snapshotInv (mountScreen i contextOutfit)"
  by (simp add: snapshotInv_def mountScreen_eq)

lemma snapshotInv_resyncEffect: "snapshotInv s \<Longrightarrow> snapshotInv (resyncEffect contextOutfit s)"
  by (cases contextOutfit) (auto simp add: snapshotInv_def resyncEffect_def setLocalOutfit_def)

lemma snapshotInv_commit:
  assumes "snapshotInv s"
  shows "snapshotInv (commit s)"
proof -
  have "\<not> isDirty (commit s) \<and> showing (commit s) = None" if n: "localOutfit (commit s) = None"
  proof -
    have k: "\<forall>u \<in> set (pending s). keepsSnapshot u"
      using assms by (simp add: snapshotInv_def)
    have "localOutfit s = None"
    proof (rule ccontr)
      assume "localOutfit s \<noteq> None"
      then have "localOutfit (s\<lparr>pending := []\<rparr>) \<noteq> None" by simp
      from fold_keeps_snapshot [OF k this] n show False
        by (simp add: commit_def)
    qed
    with assms have c: "\<not> isDirty s" "showing s = None"
      "\<forall>u \<in> set (pending s). isLocalOutfitUpdate u"
      by (simp_all add: snapshotInv_def)
    from fold_keeps_isDirty [OF c(3), of "s\<lparr>pending := []\<rparr>"] c(1)
    have "\<not> isDirty (commit s)"
      by (simp add: commit_def)
    with c(2) show ?thesis
      by (simp add: commit_frame)
  qed
  then show ?thesis
    by (simp add: snapshotInv_def commit_frame)
qed

lemma snapshotInv_handleFieldChange:
  "snapshotInv s \<Longrightarrow> localOutfit s \<noteq> None \<Longrightarrow> snapshotInv (handleFieldChange field val s)"
  by (auto simp add: snapshotInv_def handleFieldChange_def setIsDirty_def setLocalOutfit_def
      split: option.splits)

lemma snapshotInv_log:
  assumes "snapshotInv s" and "localOutfit s \<noteq> None"
  shows "snapshotInv (goBack s)" and "snapshotInv (updateOutfit obj s)"
    and "snapshotInv (deleteOutfit i s)" and "snapshotInv (navigate name params s)"
    and "snapshotInv (alert title message buttons s)" and "snapshotInv (dismiss s)"
    and "snapshotInv (setIsDirty b s)"
  using assms by (auto simp add: snapshotInv_def log_defs dismiss_def setIsDirty_def)

lemma localOutfit_log:
  "localOutfit (goBack s) = localOutfit s" "localOutfit (updateOutfit obj s) = localOutfit s"
  "localOutfit (deleteOutfit i s) = localOutfit s"
  "localOutfit (navigate name params s) = localOutfit s"
  "localOutfit (alert title message buttons s) = localOutfit s"
  "localOutfit (dismiss s) = localOutfit s" "localOutfit (setIsDirty b s) = localOutfit s"
  by (simp_all add: log_defs dismiss_def setIsDirty_def)

lemma snapshotInv_handleSave:
  assumes "snapshotInv s" and "localOutfit s \<noteq> None"
  shows "snapshotInv (handleSave r s)" and "localOutfit (handleSave r s) = localOutfit s"
  using assms
  by (auto simp add: handleSave_def snapshotInv_log localOutfit_log split: option.splits)

lemma snapshotInv_fire:
  assumes "snapshotInv s" and "fire True known ev s = Inr s'"
  shows "snapshotInv s'"
proof (cases "localOutfit s")
  case None
  then have "s' = s"
    using assms(2) by (simp add: fire_def render_def)
  with assms(1) show ?thesis by simp
next
  case (Some obj)
  then have l: "localOutfit s \<noteq> None" by simp
  note step = snapshotInv_log [OF assms(1) l] snapshotInv_handleSave [OF assms(1) l]
    snapshotInv_handleFieldChange [OF assms(1) l]
  show ?thesis
  proof (cases "render True known s")
    case (Inl e)
    with assms(2) show ?thesis by (simp add: fire_def)
  next
    case (Inr v)
    show ?thesis
    proof (cases v)
      case Loading
      with Inr assms show ?thesis by (simp add: fire_def)
    next
      case NotFound
      with Inr assms show ?thesis by (simp add: fire_def)
    next
      case (Form o' ths dirty)
      show ?thesis
      proof (cases ev)
        case PressBack
        with Form Inr assms(2) have "s' = onBack s s" by (simp add: fire_def)
        then show ?thesis using step by (simp add: onBack_def)
      next
        case PressDelete
        with Form Inr assms(2) have "s' = handleDelete s s" by (simp add: fire_def)
        then show ?thesis using step by (simp add: handleDelete_def)
      next
        case PressImage
        with Form Inr assms(2) have "s' = handleEditOutfit s s" by (simp add: fire_def)
        then show ?thesis using step by (simp add: handleEditOutfit_def)
      next
        case (AddTag tag)
        with Form Inr assms(2) have "onAddTag s tag s = Inr s'" by (simp add: fire_def)
        then show ?thesis using step
          by (auto simp add: onAddTag_def split: option.splits sum.splits)
      next
        case (RemoveTag tag)
        with Form Inr assms(2) have "onRemoveTag s tag s = Inr s'" by (simp add: fire_def)
        then show ?thesis using step
          by (auto simp add: onRemoveTag_def split: option.splits jsval.splits)
      next
        case (SeasonChange v)
        with Form Inr assms(2) have "s' = handleFieldChange ''season'' v s"
          by (simp add: fire_def)
        then show ?thesis using step by simp
      next
        case (OccasionChange v)
        with Form Inr assms(2) have "s' = handleFieldChange ''occasion'' v s"
          by (simp add: fire_def)
        then show ?thesis using step by simp
      next
        case (PressItem i)
        with Form Inr assms(2) show ?thesis using step assms(1)
          by (auto simp add: fire_def split: if_splits)
      next
        case PressSave
        with Form Inr assms(2) show ?thesis using step assms(1)
          by (auto simp add: fire_def split: if_splits)
      qed
    qed
  qed
qed

lemma snapshotInv_pressButton:
  assumes "snapshotInv s" and "pressButton t s = Some s'"
  shows "snapshotInv s'"
proof -
  from assms(2) obtain buttons b where
    sh: "showing s = Some buttons" and s': "s' = pressed b (dismiss s)"
    by (auto simp add: pressButton_def split: option.splits)
  from sh assms(1) have l: "localOutfit s \<noteq> None"
    by (auto simp add: snapshotInv_def)
  have d: "snapshotInv (dismiss s)" "localOutfit (dismiss s) \<noteq> None"
    using snapshotInv_log(6) [OF assms(1) l] l by (simp_all add: localOutfit_log)
  have "snapshotInv (runCallback cb (dismiss s))" for cb
  proof (cases cb)
    case DiscardOnPress
    then show ?thesis using snapshotInv_log(1) [OF d] by simp
  next
    case (SaveOnPress r)
    have "snapshotInv (goBack (handleSave r (dismiss s)))"
      using snapshotInv_handleSave [OF d, of r] d(2) by (simp add: snapshotInv_log(1))
    with SaveOnPress show ?thesis by simp
  next
    case (DeleteOnPress r)
    have "snapshotInv (goBack (deleteOutfit (routeId r) (dismiss s)))"
      using snapshotInv_log(3) [OF d, of "routeId r"] d(2)
      by (simp add: snapshotInv_log(1) localOutfit_log)
    with DeleteOnPress show ?thesis by simp
  qed
  with d(1) s' show ?thesis
    by (simp add: pressed_def split: option.splits)
qed

lemma reachable_snapshotInv: "reachable s \<Longrightarrow> snapshotInv s"
proof (induction rule: reachable.induct)
  case (mounted i contextOutfit)
  show ?case by (rule snapshotInv_mountScreen)
next
  case (resynced s contextOutfit)
  then show ?case by (simp add: snapshotInv_resyncEffect)
next
  case (fired s known ev s')
  then show ?case by (blast intro: snapshotInv_fire)
next
  case (button s t s')
  then show ?case by (blast intro: snapshotInv_pressButton)
next
  case (rendered_again s)
  then show ?case by (simp add: snapshotInv_commit)
qed

lemma reachable_dirty_has_snapshot: "reachable s \<Longrightarrow> isDirty s \<Longrightarrow> localOutfit s \<noteq> None"
  using reachable_snapshotInv [of s] by (auto simp add: snapshotInv_def)

lemma reachable_dirty0: "reachable dirty0"
proof -
  have "reachable clean0"
    unfolding clean0_def by (rule reachable.mounted)
  moreover have "fire True (\<lambda>i. True) (SeasonChange (JArray [JString ''summer''])) clean0
                   = Inr (handleFieldChange ''season'' (JArray [JString ''summer'']) clean0)"
    by (simp add: fire_def render_def localOutfit_clean0 getProp_def outfit0_clothingItems)
  ultimately have "reachable (handleFieldChange ''season'' (JArray [JString ''summer'']) clean0)"
    by (rule reachable.fired)
  then show ?thesis
    unfolding dirty0_def by (rule reachable.rendered_again)
qed

section \<open>Back navigation\<close>

text \<open>
  Claim C1, as the code has it. A back request made by a render that saw the dirty flag
  set shows one alert and changes neither the cells nor the queue. The alert on screen
  has two buttons, ``Discard'' and ``Save''. Pressing ``Discard'' on it calls \<open>goBack\<close>
  and nothing else; pressing ``Save'' on it runs \<open>handleSave\<close> and then calls
  \<open>goBack\<close>. No other button can be pressed on it: there is no choice that keeps the
  user on the screen.
\<close>

theorem onBack_dirty_two_choices:
  assumes "isDirty r"
  shows "calls (onBack r s) =
           calls s @ [AlertCall ''Unsaved Changes'' ''Do you want to save your changes?''
                        [(''Discard'', Some ''destructive''), (''Save'', None)]]
         \<and> localOutfit (onBack r s) = localOutfit s
         \<and> isDirty (onBack r s) = isDirty s
         \<and> pending (onBack r s) = pending s
         \<and> map_option (map btn_text) (showing (onBack r s)) = Some [''Discard'', ''Save'']
         \<and> (pressButton t (onBack r s) = None) = (t \<noteq> ''Discard'' \<and> t \<noteq> ''Save'')
         \<and> pressButton ''Discard'' (onBack r s) = Some (goBack (dismiss (onBack r s)))
         \<and> calls (goBack (dismiss (onBack r s))) = calls (onBack r s) @ [GoBack]
         \<and> pending (goBack (dismiss (onBack r s))) = pending s
         \<and> pressButton ''Save'' (onBack r s)
             = Some (goBack (handleSave r (dismiss (onBack r s))))
         \<and> calls (dismiss (onBack r s)) = calls (onBack r s)
         \<and> pending (dismiss (onBack r s)) = pending s"
proof -
  have frame:
    "calls (onBack r s) =
       calls s @ [AlertCall ''Unsaved Changes'' ''Do you want to save your changes?''
                    [(''Discard'', Some ''destructive''), (''Save'', None)]]"
    "localOutfit (onBack r s) = localOutfit s"
    "isDirty (onBack r s) = isDirty s"
    "pending (onBack r s) = pending s"
    "map_option (map btn_text) (showing (onBack r s)) = Some [''Discard'', ''Save'']"
    "calls (goBack (dismiss (onBack r s))) = calls (onBack r s) @ [GoBack]"
    "pending (goBack (dismiss (onBack r s))) = pending s"
    "calls (dismiss (onBack r s)) = calls (onBack r s)"
    "pending (dismiss (onBack r s)) = pending s"
    using assms
    by (simp_all add: onBack_def alert_def unsavedChangesButtons_def dismiss_def goBack_def)
  have press:
    "(pressButton t (onBack r s) = None) = (t \<noteq> ''Discard'' \<and> t \<noteq> ''Save'')"
    "pressButton ''Discard'' (onBack r s) = Some (goBack (dismiss (onBack r s)))"
    "pressButton ''Save'' (onBack r s) = Some (goBack (handleSave r (dismiss (onBack r s))))"
    by (simp_all add: pressButton_onBack_dirty [OF assms])
  from frame press show ?thesis
    by (intro conjI)
qed

theorem onBack_dirty_two_choices_witness:
  "isDirty dirty0
   \<and> calls (onBack dirty0 dirty0) =
       [AlertCall ''Unsaved Changes'' ''Do you want to save your changes?''
          [(''Discard'', Some ''destructive''), (''Save'', None)]]
   \<and> pressButton ''Discard'' (onBack dirty0 dirty0)
       = Some (goBack (dismiss (onBack dirty0 dirty0)))
   \<and> pressButton ''Save'' (onBack dirty0 dirty0)
       = Some (goBack (handleSave dirty0 (dismiss (onBack dirty0 dirty0))))
   \<and> pressButton ''Cancel'' (onBack dirty0 dirty0) = None"
  using onBack_dirty_two_choices [OF isDirty_dirty0, of dirty0 "''Cancel''"]
    isDirty_dirty0 calls_dirty0
  by simp

text \<open>
  Claim C1 as the specification words it asks for three choices, one of them a cancel.
  On the dirty screen \<open>dirty0\<close> the alert that \<open>onBack\<close> puts on screen has two
  buttons, not three, and none named ``Cancel''.
\<close>

theorem onBack_prompt_has_no_cancel:
  "calls (onBack dirty0 dirty0) =
       [AlertCall ''Unsaved Changes'' ''Do you want to save your changes?''
          [(''Discard'', Some ''destructive''), (''Save'', None)]]
   \<and> map_option length (showing (onBack dirty0 dirty0)) = Some 2
   \<and> map_option length (showing (onBack dirty0 dirty0)) \<noteq> Some 3
   \<and> pressButton ''Cancel'' (onBack dirty0 dirty0) = None"
  by (simp add: onBack_def alert_def unsavedChangesButtons_def pressButton_def
      isDirty_dirty0 calls_dirty0)




text \<open>
  Claim C5. A back request from a render that saw the dirty flag clear calls \<open>goBack\<close>
  at once: the log grows by that one call (no alert, no store call), no alert is put on
  screen and the state is otherwise as it was.
\<close>

theorem clean_back_goes_back:
  assumes "\<not> isDirty r"
  shows "onBack r s = goBack s
         \<and> calls (onBack r s) = calls s @ [GoBack]
         \<and> localOutfit (onBack r s) = localOutfit s
         \<and> isDirty (onBack r s) = isDirty s
         \<and> pending (onBack r s) = pending s
         \<and> showing (onBack r s) = showing s"
  using assms by (simp add: onBack_def goBack_def)

theorem clean_back_goes_back_witness:
  "\<not> isDirty clean0 \<and> onBack clean0 clean0 = goBack clean0
   \<and> calls (onBack clean0 clean0) = [GoBack]"
  using clean_back_goes_back [OF isDirty_clean0, of clean0] isDirty_clean0 calls_clean0
  by (simp add: goBack_def)

section \<open>Resynchronisation and the missing record\<close>

text \<open>
  Claim C2, as the code has it. When the effect runs with the store's new value, a
  defined value is queued as the new snapshot and is the snapshot of the next render;
  an absent one queues nothing and the next render has the snapshot it would have had.
  The dirty flag (now and in the next render), the route id, the log and the alert on
  screen are untouched either way.
\<close>

theorem resyncEffect_guarded:
  "localOutfit (commit (resyncEffect contextOutfit s))
     = (case contextOutfit of None \<Rightarrow> localOutfit (commit s) | Some obj \<Rightarrow> Some obj)
   \<and> isDirty (commit (resyncEffect contextOutfit s)) = isDirty (commit s)
   \<and> pending (resyncEffect contextOutfit s)
       = pending s @ (case contextOutfit of
                        None \<Rightarrow> []
                      | Some obj \<Rightarrow> [LocalOutfitUpdate (\<lambda>_. Some obj)])
   \<and> localOutfit (resyncEffect contextOutfit s) = localOutfit s
   \<and> isDirty (resyncEffect contextOutfit s) = isDirty s
   \<and> calls (resyncEffect contextOutfit s) = calls s
   \<and> showing (resyncEffect contextOutfit s) = showing s
   \<and> routeId (resyncEffect contextOutfit s) = routeId s"
  by (cases contextOutfit)
     (simp_all add: resyncEffect_def setLocalOutfit_def commit_snoc)

text \<open>
  Claim C2 as the specification words it has the snapshot replaced by every new store
  value, an absent one included. On \<open>clean0\<close>, whose snapshot is \<open>outfit0\<close>, after the
  effect ran with an absent store value the next render still has \<open>outfit0\<close>.
\<close>

theorem resyncEffect_absent_keeps_snapshot:
  "localOutfit (commit (resyncEffect None clean0)) = Some outfit0
   \<and> localOutfit (commit (resyncEffect None clean0)) \<noteq> None"
  by (simp add: resyncEffect_def commit_idle pending_clean0 localOutfit_clean0)

text \<open>
  Claim C3, as the code has it. When the store has no record for the id at mount, the
  render returns the not-found placeholder (a value, not an error), the log is empty,
  no event of the rendered screen changes anything, no alert button can be pressed, and
  neither a later run of the effect with the record still absent nor a further render
  changes anything: so the placeholder stays, with no call made, for as long as the
  store returns no record.
\<close>

theorem not_found_when_absent_at_mount:
  "render True known (mountScreen i None) = Inr NotFound
   \<and> calls (mountScreen i None) = []
   \<and> fire True known ev (mountScreen i None) = Inr (mountScreen i None)
   \<and> resyncEffect None (mountScreen i None) = mountScreen i None
   \<and> commit (mountScreen i None) = mountScreen i None
   \<and> pressButton t (mountScreen i None) = None"
  by (simp add: render_def fire_def resyncEffect_def mountScreen_eq commit_def pressButton_def)

text \<open>
  Claim C3 as the specification words it covers every moment at which the store has no
  record. A screen mounted on \<open>outfit0\<close> whose store then loses the record (the effect
  runs with an absent value, the component renders again) still renders the form.
\<close>

theorem form_stays_when_store_loses_record:
  "render True (\<lambda>i. True) (commit (resyncEffect None (mountScreen ''o1'' (Some outfit0))))
     = Inr (Form outfit0 [JString ''c1''] False)
   \<and> render True (\<lambda>i. True) (commit (resyncEffect None (mountScreen ''o1'' (Some outfit0))))
     \<noteq> Inr NotFound"
  by (simp add: render_def resyncEffect_def mountScreen_eq commit_def getProp_def
      outfit0_clothingItems)

section \<open>Editing\<close>

text \<open>
  Claim C6. On a snapshot that is defined when the update is applied, the field-change
  handler gives a snapshot that holds the value at the named field and agrees with the
  previous one at every other field, and it sets the dirty flag whatever the value is
  (so also when the field already held it). The log, the alert on screen and the route
  id are untouched.
\<close>

theorem handleFieldChange_replaces_one_field:
  assumes "localOutfit (commit s) = Some prevOutfit"
  shows "\<exists>newOutfit.
           localOutfit (commit (handleFieldChange field val s)) = Some newOutfit
           \<and> newOutfit field = Some val
           \<and> (\<forall>other. other \<noteq> field \<longrightarrow> newOutfit other = prevOutfit other)
           \<and> isDirty (commit (handleFieldChange field val s))
           \<and> calls (handleFieldChange field val s) = calls s
           \<and> showing (handleFieldChange field val s) = showing s
           \<and> routeId (handleFieldChange field val s) = routeId s"
  using assms
  by (simp add: commit_handleFieldChange)
     (simp add: handleFieldChange_def setIsDirty_def setLocalOutfit_def)

theorem handleFieldChange_replaces_one_field_witness:
  "localOutfit (commit clean0) = Some outfit0
   \<and> \<not> isDirty (commit clean0)
   \<and> outfit0 ''season'' = Some (JArray [JString ''summer''])
   \<and> ''tags'' \<noteq> ''season''
   \<and> (\<exists>newOutfit.
         localOutfit (commit (handleFieldChange ''season'' (JArray [JString ''summer'']) clean0))
           = Some newOutfit
         \<and> newOutfit ''season'' = Some (JArray [JString ''summer''])
         \<and> newOutfit ''tags'' = outfit0 ''tags''
         \<and> isDirty (commit (handleFieldChange ''season'' (JArray [JString ''summer''])
                             clean0)))"
proof -
  have c: "localOutfit (commit clean0) = Some outfit0"
    by (simp add: commit_clean0 localOutfit_clean0)
  from handleFieldChange_replaces_one_field
         [OF c, of "''season''" "JArray [JString ''summer'']"]
  obtain newOutfit where
    n: "localOutfit (commit (handleFieldChange ''season'' (JArray [JString ''summer'']) clean0))
          = Some newOutfit"
       "newOutfit ''season'' = Some (JArray [JString ''summer''])"
       "\<forall>other. other \<noteq> ''season'' \<longrightarrow> newOutfit other = outfit0 other"
       "isDirty (commit (handleFieldChange ''season'' (JArray [JString ''summer'']) clean0))"
    by blast
  have d: "''tags'' \<noteq> ''season''"
    by simp
  from n(3) have t: "newOutfit ''tags'' = outfit0 ''tags''"
    by simp
  have "\<exists>newOutfit.
          localOutfit (commit (handleFieldChange ''season'' (JArray [JString ''summer''])
                               clean0))
            = Some newOutfit
          \<and> newOutfit ''season'' = Some (JArray [JString ''summer''])
          \<and> newOutfit ''tags'' = outfit0 ''tags''
          \<and> isDirty (commit (handleFieldChange ''season'' (JArray [JString ''summer''])
                              clean0))"
    using n(1,2,4) t by (intro exI [of _ newOutfit] conjI)
  moreover have "\<not> isDirty (commit clean0)"
    by (simp add: commit_clean0 isDirty_clean0)
  ultimately show ?thesis
    using d c outfit0_season by (intro conjI)
qed

text \<open>
  Claim C10, as the code has it. Were the field-change handler run on a component with
  no snapshot, the snapshot would stay undefined and the dirty flag would still be set.
  The screen never runs it there: with no snapshot no event of the rendered screen does
  anything, and in every state a history of the screen reaches, a set dirty flag comes
  with a snapshot.
\<close>

theorem handleFieldChange_without_snapshot:
  assumes "localOutfit s = None" and "localOutfit (commit s) = None" and "reachable s'"
  shows "localOutfit (commit (handleFieldChange field val s)) = None
         \<and> isDirty (commit (handleFieldChange field val s))
         \<and> calls (handleFieldChange field val s) = calls s
         \<and> fire True known ev s = Inr s
         \<and> (isDirty s' \<longrightarrow> localOutfit s' \<noteq> None)"
proof -
  have "localOutfit (commit (handleFieldChange field val s)) = None"
    "isDirty (commit (handleFieldChange field val s))"
    using assms(2) by (simp_all add: commit_handleFieldChange)
  moreover have "calls (handleFieldChange field val s) = calls s"
    by (simp add: handleFieldChange_def setIsDirty_def setLocalOutfit_def)
  moreover have "fire True known ev s = Inr s"
    using assms(1) by (simp add: fire_def render_def)
  moreover have "isDirty s' \<longrightarrow> localOutfit s' \<noteq> None"
    using reachable_dirty_has_snapshot [OF assms(3)] by blast
  ultimately show ?thesis
    by (intro conjI)
qed

theorem handleFieldChange_without_snapshot_witness:
  "localOutfit (mountScreen ''o1'' None) = None
   \<and> localOutfit (commit (mountScreen ''o1'' None)) = None
   \<and> reachable dirty0
   \<and> localOutfit (commit (handleFieldChange ''tags'' (JArray []) (mountScreen ''o1'' None)))
       = None
   \<and> isDirty (commit (handleFieldChange ''tags'' (JArray []) (mountScreen ''o1'' None)))
   \<and> fire True (\<lambda>i. True) (AddTag ''red'') (mountScreen ''o1'' None)
       = Inr (mountScreen ''o1'' None)
   \<and> isDirty dirty0
   \<and> localOutfit dirty0 \<noteq> None"
proof -
  have a: "localOutfit (mountScreen ''o1'' None) = None"
    by (rule localOutfit_mount_absent)
  have b: "localOutfit (commit (mountScreen ''o1'' None)) = None"
    by (simp add: commit_idle pending_mount_absent localOutfit_mount_absent)
  from handleFieldChange_without_snapshot
         [OF a b reachable_dirty0, of "''tags''" "JArray []" "\<lambda>i. True" "AddTag ''red''"]
    a b reachable_dirty0 isDirty_dirty0
  show ?thesis
    by simp
qed

text \<open>
  Claim C10 as the specification words it concludes that the dirty flag can be true
  while no snapshot exists. No history of the screen reaches such a state.
\<close>

theorem dirty_without_snapshot_unreachable:
  "\<not> (\<exists>s. reachable s \<and> isDirty s \<and> localOutfit s = None)"
  using reachable_dirty_has_snapshot by blast

text \<open>
  Claim C7. With the tag sequence \<open>ts\<close> in the snapshot the render saw: adding a tag
  stores \<open>ts\<close> with the tag appended at the end, whether or not \<open>ts\<close> has it already;
  removing a tag stores the elements of \<open>ts\<close> other than the tag, so the tag is gone
  altogether, what is kept is a subsequence of \<open>ts\<close> (same relative order), and every
  other element occurs as often as before.
\<close>

theorem tag_handlers_append_and_filter:
  assumes "localOutfit r = Some obj"
    and "obj ''tags'' = Some (JArray ts)"
    and "localOutfit (commit s) = Some prevOutfit"
  shows "onAddTag r tag s = Inr (handleFieldChange ''tags'' (JArray (ts @ [JString tag])) s)
         \<and> localOutfit (commit (handleFieldChange ''tags'' (JArray (ts @ [JString tag])) s))
             = Some (prevOutfit(''tags'' \<mapsto> JArray (ts @ [JString tag])))
         \<and> (\<exists>kept.
               onRemoveTag r tag s = Inr (handleFieldChange ''tags'' (JArray kept) s)
               \<and> localOutfit (commit (handleFieldChange ''tags'' (JArray kept) s))
                   = Some (prevOutfit(''tags'' \<mapsto> JArray kept))
               \<and> kept = filter (\<lambda>t. t \<noteq> JString tag) ts
               \<and> JString tag \<notin> set kept
               \<and> subseq kept ts
               \<and> (\<forall>t. t \<noteq> JString tag \<longrightarrow> count_list kept t = count_list ts t))"
proof -
  have add: "onAddTag r tag s = Inr (handleFieldChange ''tags'' (JArray (ts @ [JString tag])) s)"
    using assms(1,2) by (simp add: onAddTag_def getProp_def)
  have rem: "onRemoveTag r tag s
               = Inr (handleFieldChange ''tags'' (JArray (filter (\<lambda>t. t \<noteq> JString tag) ts)) s)"
    using assms(1,2) by (simp add: onRemoveTag_def getProp_def)
  have snap: "localOutfit (commit (handleFieldChange ''tags'' v s))
                = Some (prevOutfit(''tags'' \<mapsto> v))"
    for v
    using assms(3) by (simp add: commit_handleFieldChange)
  have cnt: "count_list (filter (\<lambda>t. t \<noteq> JString tag) ts) t = count_list ts t"
    if "t \<noteq> JString tag" for t
    using that by (induction ts) auto
  show ?thesis
    using add rem snap cnt by simp
qed

theorem tag_handlers_append_and_filter_witness:
  "localOutfit clean0 = Some outfit0
   \<and> outfit0 ''tags'' = Some (JArray [JString ''casual'', JString ''summer'', JString ''casual''])
   \<and> localOutfit (commit clean0) = Some outfit0
   \<and> onAddTag clean0 ''casual'' clean0
       = Inr (handleFieldChange ''tags''
                (JArray [JString ''casual'', JString ''summer'', JString ''casual'',
                         JString ''casual''])
                clean0)
   \<and> onRemoveTag clean0 ''casual'' clean0
       = Inr (handleFieldChange ''tags'' (JArray [JString ''summer'']) clean0)
   \<and> JString ''summer'' \<noteq> JString ''casual''
   \<and> count_list [JString ''summer''] (JString ''summer'')
       = count_list [JString ''casual'', JString ''summer'', JString ''casual'']
           (JString ''summer'')"
proof -
  have cc: "localOutfit (commit clean0) = Some outfit0"
    by (simp add: commit_clean0 localOutfit_clean0)
  from tag_handlers_append_and_filter
         [OF localOutfit_clean0 outfit0_tags cc, of "''casual''"]
  obtain kept where
    a: "onAddTag clean0 ''casual'' clean0
          = Inr (handleFieldChange ''tags''
                   (JArray ([JString ''casual'', JString ''summer'', JString ''casual'']
                            @ [JString ''casual'']))
                   clean0)"
    and b: "onRemoveTag clean0 ''casual'' clean0
              = Inr (handleFieldChange ''tags'' (JArray kept) clean0)"
    and k: "kept = filter (\<lambda>t. t \<noteq> JString ''casual'')
                     [JString ''casual'', JString ''summer'', JString ''casual'']"
    and c: "\<forall>t. t \<noteq> JString ''casual'' \<longrightarrow>
              count_list kept t
                = count_list [JString ''casual'', JString ''summer'', JString ''casual''] t"
    by blast
  from k have k': "kept = [JString ''summer'']"
    by simp
  have d: "JString ''summer'' \<noteq> JString ''casual''"
    by simp
  from c [rule_format, OF d] k'
  have e: "count_list [JString ''summer''] (JString ''summer'')
             = count_list [JString ''casual'', JString ''summer'', JString ''casual'']
                 (JString ''summer'')"
    by simp
  from a have a': "onAddTag clean0 ''casual'' clean0
          = Inr (handleFieldChange ''tags''
                   (JArray [JString ''casual'', JString ''summer'', JString ''casual'',
                            JString ''casual''])
                   clean0)"
    by simp
  from b k' have b': "onRemoveTag clean0 ''casual'' clean0
              = Inr (handleFieldChange ''tags'' (JArray [JString ''summer'']) clean0)"
    by simp
  from localOutfit_clean0 outfit0_tags cc a' b' d e show ?thesis
    by (intro conjI)
qed

section \<open>Saving and deleting\<close>

text \<open>
  Claim C8. A delete request shows one alert, and the alert on screen has the two
  buttons ``Cancel'' and ``Delete'' and no other. Pressing ``Delete'' on it calls
  \<open>deleteOutfit\<close> with the route id once and then \<open>goBack\<close>. Pressing ``Cancel'' on it
  only takes the alert away: the log holds no new \<open>deleteOutfit\<close> and no new \<open>goBack\<close>.
\<close>

theorem delete_prompt_accept_or_cancel:
  "calls (handleDelete r s) =
     calls s @ [AlertCall ''Delete Outfit'' ''Are you sure you want to delete this outfit?''
                  [(''Cancel'', Some ''cancel''), (''Delete'', Some ''destructive'')]]
   \<and> pending (handleDelete r s) = pending s
   \<and> (pressButton t (handleDelete r s) = None) = (t \<noteq> ''Cancel'' \<and> t \<noteq> ''Delete'')
   \<and> pressButton ''Delete'' (handleDelete r s)
       = Some (goBack (deleteOutfit (routeId r) (dismiss (handleDelete r s))))
   \<and> calls (goBack (deleteOutfit (routeId r) (dismiss (handleDelete r s)))) =
       calls (handleDelete r s) @ [DeleteOutfit (routeId r), GoBack]
   \<and> countCalls isDelete (goBack (deleteOutfit (routeId r) (dismiss (handleDelete r s))))
       = countCalls isDelete s + 1
   \<and> pressButton ''Cancel'' (handleDelete r s) = Some (dismiss (handleDelete r s))
   \<and> calls (dismiss (handleDelete r s)) = calls (handleDelete r s)
   \<and> countCalls isDelete (dismiss (handleDelete r s)) = countCalls isDelete s
   \<and> countCalls isGoBack (dismiss (handleDelete r s)) = countCalls isGoBack s"
proof -
  have press: "(pressButton t (handleDelete r s) = None) = (t \<noteq> ''Cancel'' \<and> t \<noteq> ''Delete'')"
    "pressButton ''Delete'' (handleDelete r s)
       = Some (goBack (deleteOutfit (routeId r) (dismiss (handleDelete r s))))"
    "pressButton ''Cancel'' (handleDelete r s) = Some (dismiss (handleDelete r s))"
    by (simp_all add: pressButton_handleDelete)
  have log: "calls (handleDelete r s) =
     calls s @ [AlertCall ''Delete Outfit'' ''Are you sure you want to delete this outfit?''
                  [(''Cancel'', Some ''cancel''), (''Delete'', Some ''destructive'')]]"
    "pending (handleDelete r s) = pending s"
    "calls (goBack (deleteOutfit (routeId r) (dismiss (handleDelete r s)))) =
       calls (handleDelete r s) @ [DeleteOutfit (routeId r), GoBack]"
    "countCalls isDelete (goBack (deleteOutfit (routeId r) (dismiss (handleDelete r s))))
       = countCalls isDelete s + 1"
    "calls (dismiss (handleDelete r s)) = calls (handleDelete r s)"
    "countCalls isDelete (dismiss (handleDelete r s)) = countCalls isDelete s"
    "countCalls isGoBack (dismiss (handleDelete r s)) = countCalls isGoBack s"
    by (simp_all add: handleDelete_def deleteButtons_def log_defs dismiss_def countCalls_def)
  from press log show ?thesis
    by (intro conjI)
qed

text \<open>
  Claim C9. A save handler whose render saw no snapshot does nothing at all: no
  \<open>updateOutfit\<close>, no queued change of the dirty flag, no success alert. The component
  is returned as it was.
\<close>

theorem handleSave_without_snapshot:
  assumes "localOutfit r = None"
  shows "handleSave r s = s"
  using assms by (simp add: handleSave_def)

theorem handleSave_without_snapshot_witness:
  "localOutfit (mountScreen ''o1'' None) = None
   \<and> handleSave (mountScreen ''o1'' None) dirty0 = dirty0"
  using handleSave_without_snapshot [OF localOutfit_mount_absent [of "''o1''"], of dirty0]
    localOutfit_mount_absent [of "''o1''"]
  by simp

end
